theory Spec2Isabelle
  imports Main
begin

section \<open>Objects and references\<close>

text \<open>
  The program is TypeScript: every state object is reached through a reference, and the
  library compares objects with \<open>===\<close>, that is by identity. State objects are never
  mutated after they are built, so an object is modelled as its address together with its
  fields. An object literal in the source builds a new object at the next free address.

  The source is written against three libraries, the store (\<open>createReducer\<close>,
  \<open>StoreModule.forRoot\<close>, \<open>store.select\<close>), the effects (\<open>createEffect\<close>,
  \<open>ofType\<close>) and the observables (\<open>mergeMap\<close>, \<open>map\<close>, \<open>catchError\<close>, \<open>of\<close>,
  \<open>throwError\<close>). Each operation the source calls is given the meaning the library
  gives it, next to the place of the source that calls it.
\<close>

type_synonym addr = nat

type_synonym 'a obj = "addr \<times> 'a"

definition sameRef :: "'a obj \<Rightarrow> 'a obj \<Rightarrow> bool" where
  \<comment> \<open>\<open>a === b\<close> on two objects\<close>
  "sameRef a b = (fst a = fst b)"

fun sameRefOrNull :: "'a obj option \<Rightarrow> 'a obj option \<Rightarrow> bool" where
  \<comment> \<open>\<open>a === b\<close> on two values of type \<open>T | null\<close>\<close>
  "sameRefOrNull None None = True"
| "sameRefOrNull (Some a) (Some b) = sameRef a b"
| "sameRefOrNull _ _ = False"

section \<open>The user state (user.state.ts)\<close>

record User =
  id' :: string
  name :: string
  email :: string
  role :: string

record UserState =
  currentUser :: "User obj option"
  isAuthenticated :: bool
  loading :: bool
  error :: "string option"

definition initialUserState :: UserState where
  "initialUserState =
     \<lparr>currentUser = None, isAuthenticated = False, loading = False, error = None\<rparr>"

section \<open>Actions (user.actions.ts)\<close>

text \<open>
  The seven action creators of the source. An action is a value built by one of them, or
  an action of some other type (another feature's action, the store's own init action).
  The type strings of the seven creators are the registered ones; the type of any other
  action is a string different from all seven.
\<close>

definition registeredTypes :: "string list" where
  "registeredTypes =
     [''[Auth] Login'', ''[Auth] Login Success'', ''[Auth] Login Failure'',
      ''[Auth] Logout'', ''[Auth] Logout Success'',
      ''[User] Get User Profile'', ''[User] Get User Profile Success'']"

typedef foreignType = "{t :: string. t \<notin> set registeredTypes}"
  by (rule exI [of _ "[]"]) (simp add: registeredTypes_def)

setup_lifting type_definition_foreignType

lift_definition otherType :: "string \<Rightarrow> foreignType" is
  \<comment> \<open>the type of another action, from its string; a registered string is no such type\<close>
  "\<lambda>t. if t \<in> set registeredTypes then [] else t"
  by (simp add: registeredTypes_def)

datatype Action =
    login string string
  | loginSuccess "User obj"
  | loginFailure string
  | logout
  | logoutSuccess
  | getUserProfile
  | getUserProfileSuccess "User obj"
  | Foreign foreignType

fun type :: "Action \<Rightarrow> string" where
  "type (login username password) = ''[Auth] Login''"
| "type (loginSuccess user) = ''[Auth] Login Success''"
| "type (loginFailure err) = ''[Auth] Login Failure''"
| "type logout = ''[Auth] Logout''"
| "type logoutSuccess = ''[Auth] Logout Success''"
| "type getUserProfile = ''[User] Get User Profile''"
| "type (getUserProfileSuccess user) = ''[User] Get User Profile Success''"
| "type (Foreign t) = Rep_foreignType t"

section \<open>The reducer (user.reducer.ts)\<close>

text \<open>
  \<open>createReducer\<close> looks the action's type up among the \<open>on\<close> entries and runs the
  handler registered for it; for a type with no entry it returns the state it was given.
  \<open>userReducer\<close> gives the fields of the object a handler's literal builds.
\<close>

fun userReducer :: "UserState \<Rightarrow> Action \<Rightarrow> UserState" where
  "userReducer state (login username password) = state\<lparr>loading := True, error := None\<rparr>"
| "userReducer state (loginSuccess user) =
     state\<lparr>currentUser := Some user, isAuthenticated := True, loading := False, error := None\<rparr>"
| "userReducer state (loginFailure err) = state\<lparr>loading := False, error := Some err\<rparr>"
| "userReducer state logout = state\<lparr>loading := True\<rparr>"
| "userReducer state logoutSuccess = initialUserState"
| "userReducer state getUserProfile = state\<lparr>loading := True\<rparr>"
| "userReducer state (getUserProfileSuccess user) =
     state\<lparr>currentUser := Some user, loading := False\<rparr>"
| "userReducer state (Foreign t) = state"

text \<open>
  The same function on references. Each of the seven handlers is an arrow function whose
  body is an object literal \<open>({...state, ...})\<close>, so it returns a new object, also when
  every field keeps its value; an action of another type gets back the very object that
  was passed in. The first argument is the next free address, returned updated.
\<close>

fun userReducer_obj :: "addr \<Rightarrow> UserState obj \<Rightarrow> Action \<Rightarrow> UserState obj \<times> addr" where
  "userReducer_obj fresh state (Foreign t) = (state, fresh)"
| "userReducer_obj fresh state action = ((fresh, userReducer (snd state) action), Suc fresh)"

section \<open>The store (app.state.ts, app.module.ts)\<close>

record AppState =
  user :: "UserState obj"

text \<open>
  \<open>StoreModule.forRoot({ user: userReducer })\<close> combines the slice reducers
  (\<open>combineReducers\<close>): the next state gets each slice from its reducer, and the previous
  state object is kept when every slice reducer returned the reference it was given; a
  slice counts as changed when the new reference \<open>!==\<close> the previous one. The fields
  of two slices are never compared.
\<close>

definition rootReducer :: "addr \<Rightarrow> AppState obj \<Rightarrow> Action \<Rightarrow> AppState obj \<times> addr" where
  "rootReducer fresh state action =
     (let previousStateForKey = user (snd state);
          (nextStateForKey, fresh') = userReducer_obj fresh previousStateForKey action;
          hasChanged = (\<not> sameRef nextStateForKey previousStateForKey)
      in if hasChanged then ((fresh', \<lparr>user = nextStateForKey\<rparr>), Suc fresh')
         else (state, fresh'))"

record Store =
  state :: "AppState obj"
  nextAddr :: addr

definition createStore :: "addr \<Rightarrow> Store" where
  \<comment> \<open>the store at start-up, its two objects built from the given free address on\<close>
  "createStore a = \<lparr>state = (Suc a, \<lparr>user = (a, initialUserState)\<rparr>), nextAddr = Suc (Suc a)\<rparr>"

definition dispatch :: "Store \<Rightarrow> Action \<Rightarrow> Store" where
  "dispatch store action =
     (case rootReducer (nextAddr store) (state store) action of
        (s, n) \<Rightarrow> \<lparr>state = s, nextAddr = n\<rparr>)"

definition sliceValue :: "AppState obj \<Rightarrow> UserState" where
  \<comment> \<open>the fields of the \<open>user\<close> slice of a state object\<close>
  "sliceValue root = snd (user (snd root))"

definition wellFormed :: "Store \<Rightarrow> bool" where
  \<comment> \<open>the objects of the current state lie below the next free address\<close>
  "wellFormed store =
     (fst (state store) < nextAddr store \<and> fst (user (snd (state store))) < nextAddr store)"

text \<open>
  The store emits its state after every dispatched action. \<open>store.select(selector)\<close> maps
  each emitted state through the selector and drops a value that is \<open>===\<close> to the one
  delivered last (\<open>distinctUntilChanged\<close>).
\<close>

fun emissions :: "Store \<Rightarrow> Action list \<Rightarrow> AppState obj list" where
  "emissions store [] = []"
| "emissions store (a # as) = state (dispatch store a) # emissions (dispatch store a) as"

fun distinctUntilChanged :: "('v \<Rightarrow> 'v \<Rightarrow> bool) \<Rightarrow> 'v \<Rightarrow> 'v list \<Rightarrow> 'v list" where
  "distinctUntilChanged same prev [] = []"
| "distinctUntilChanged same prev (v # vs) =
     (if same prev v then distinctUntilChanged same prev vs
      else v # distinctUntilChanged same v vs)"

definition notifications ::
  "(AppState obj \<Rightarrow> 'v) \<Rightarrow> ('v \<Rightarrow> 'v \<Rightarrow> bool) \<Rightarrow> Store \<Rightarrow> Action list \<Rightarrow> 'v list" where
  \<comment> \<open>what a subscriber of \<open>store.select(sel)\<close> is delivered while the actions are
      dispatched, after the value it got when it subscribed\<close>
  "notifications sel same store as =
     distinctUntilChanged same (sel (state store)) (map sel (emissions store as))"

section \<open>Observables (rxjs)\<close>

text \<open>
  Every observable the services return is finite: an HTTP call emits its response and
  completes, or fails without a response; \<open>of\<close> emits its argument and completes. Such
  an observable is modelled by what it has done once it has settled: the values it
  emitted, and whether it completed (\<open>None\<close>) or failed with an error.
\<close>

datatype Error = Error (message: string)

datatype 'a Observable = Observable (emitted: "'a list") (failure: "Error option")

definition rx_of :: "'a \<Rightarrow> 'a Observable" where
  "rx_of x = Observable [x] None"

definition throwError :: "Error \<Rightarrow> 'a Observable" where
  "throwError e = Observable [] (Some e)"

fun rx_map :: "('a \<Rightarrow> 'b) \<Rightarrow> 'a Observable \<Rightarrow> 'b Observable" where
  "rx_map f (Observable xs ending) = Observable (map f xs) ending"

fun catchError :: "(Error \<Rightarrow> 'a Observable) \<Rightarrow> 'a Observable \<Rightarrow> 'a Observable" where
  "catchError selector (Observable xs None) = Observable xs None"
| "catchError selector (Observable xs (Some e)) =
     Observable (xs @ emitted (selector e)) (failure (selector e))"

text \<open>
  \<open>tap\<close> runs its callback on every value and passes the value on; the callback's
  result here is the error it raises, if it raises one, and then the observable fails
  with that error at that value.
\<close>

fun tap :: "('a \<Rightarrow> Error option) \<Rightarrow> 'a Observable \<Rightarrow> 'a Observable" where
  "tap observer (Observable [] ending) = Observable [] ending"
| "tap observer (Observable (x # xs) ending) =
     (case observer x of
        Some e \<Rightarrow> Observable [] (Some e)
      | None \<Rightarrow>
          (case tap observer (Observable xs ending) of
             Observable ys ending' \<Rightarrow> Observable (x # ys) ending'))"

section \<open>The authentication service (auth.service.ts)\<close>

text \<open>
  The browser's local storage is outside the program, as the server is: a call to it
  returns, or raises (a storage that is full, or one the browser denies). The model keeps
  which of the two a call does, by the error it raises if it raises one; what is stored
  is read by \<open>getToken\<close> only, for the interceptor.
\<close>

record LocalStorage =
  setItem :: "string \<Rightarrow> string \<Rightarrow> Error option"
  removeItem :: "string \<Rightarrow> Error option"

definition tokenKey :: string where
  "tokenKey = ''auth_token''"

text \<open>
  What the file imports from \<open>rxjs/operators\<close>: \<open>catchError\<close> and \<open>tap\<close>. The body of
  \<open>login\<close> names \<open>map\<close> as well, which this file does not import (the effects file
  does, for itself).
\<close>

definition authService_operators :: "string list" where
  "authService_operators = [''catchError'', ''tap'']"

text \<open>
  A call of a method of the service raises (\<open>Inl\<close>) or returns its observable (\<open>Inr\<close>).

  \<open>login\<close>: \<open>http.post\<close> builds the request's observable, which sends nothing before it
  is subscribed; then the arguments of \<open>pipe\<close> are evaluated, and the unbound name
  \<open>map\<close> raises a ReferenceError. Were the name bound, the call would return the
  pipeline over the answer \<open>post\<close> of the server, whose response is the pair of the
  token and the user.
\<close>

type_synonym LoginResponse = "string \<times> User obj"

definition AuthService_login ::
  "LocalStorage \<Rightarrow> Error + (LoginResponse Observable \<Rightarrow> User obj Observable)" where
  "AuthService_login localStorage =
     (if ''map'' \<in> set authService_operators
      then Inr (\<lambda>post.
             catchError (\<lambda>e. throwError (Error ''Invalid credentials''))
               (rx_map snd
                 (tap (\<lambda>response. setItem localStorage tokenKey (fst response)) post)))
      else Inl (Error ''map is not defined''))"

text \<open>
  \<open>logout\<close> removes the token and then returns \<open>of(void 0)\<close>: when the storage raises,
  the call raises and returns nothing.
\<close>

definition AuthService_logout :: "LocalStorage \<Rightarrow> Error + unit Observable" where
  "AuthService_logout localStorage =
     (case removeItem localStorage tokenKey of
        Some e \<Rightarrow> Inl e
      | None \<Rightarrow> Inr (rx_of ()))"

definition AuthService_getCurrentUser ::
  "Error + (User obj Observable \<Rightarrow> User obj Observable)" where
  "AuthService_getCurrentUser =
     Inr (\<lambda>get. catchError (\<lambda>e. throwError (Error ''Failed to fetch user profile'')) get)"

section \<open>The effects (user.effects.ts)\<close>

text \<open>
  The inner pipeline of each dispatching effect, applied to the observable the service
  call returned.
\<close>

definition login_work :: "User obj Observable \<Rightarrow> Action Observable" where
  "login_work call =
     catchError (\<lambda>e. rx_of (loginFailure (message e))) (rx_map loginSuccess call)"

definition logout_work :: "unit Observable \<Rightarrow> Action Observable" where
  "logout_work call =
     catchError (\<lambda>e. rx_of logoutSuccess) (rx_map (\<lambda>u. logoutSuccess) call)"

definition getUserProfile_work :: "User obj Observable \<Rightarrow> Action Observable" where
  "getUserProfile_work call =
     catchError (\<lambda>e. rx_of (loginFailure (message e))) (rx_map getUserProfileSuccess call)"

definition ofType :: "string \<Rightarrow> Action \<Rightarrow> bool" where
  "ofType t a = (type a = t)"

text \<open>
  An effect is followed in time, event by event: an action passes on the action stream,
  or the observable that the \<open>i\<close>-th call of the service returned settles as \<open>r\<close>.
  For an action that passes \<open>ofType\<close>, \<open>mergeMap\<close> runs its project function, which
  calls the service. The call raises, and then the output of \<open>mergeMap\<close> fails, with every
  inner observable unsubscribed; or it returns an observable that settles at once, as
  \<open>of\<close> does, and what the inner pipeline makes of it goes to the output; or it returns
  one that settles later, and \<open>mergeMap\<close> keeps it subscribed, next to all the others,
  until it settles. An inner pipeline that failed would make the output fail as well.
  A failed output emits nothing more; what \<open>createEffect\<close> does with it is not followed.
\<close>

datatype 'r event = Dispatched Action | Settled nat 'r

datatype 'r inner = Raises Error | Now 'r | Later

record EffectState =
  inFlight :: "nat list"
  started :: nat
  failed :: bool

fun mergeMap ::
  "(Action \<Rightarrow> bool) \<Rightarrow> (Action \<Rightarrow> 'r inner) \<Rightarrow> ('r \<Rightarrow> Action Observable) \<Rightarrow> EffectState
     \<Rightarrow> 'r event \<Rightarrow> EffectState \<times> Action list" where
  "mergeMap trigger project work eff (Dispatched a) =
     (if \<not> failed eff \<and> trigger a
      then (case project a of
              Raises e \<Rightarrow> (eff\<lparr>inFlight := [], failed := True\<rparr>, [])
            | Now r \<Rightarrow>
                (case failure (work r) of
                   None \<Rightarrow> (eff\<lparr>started := Suc (started eff)\<rparr>, emitted (work r))
                 | Some e \<Rightarrow>
                     (eff\<lparr>inFlight := [], started := Suc (started eff), failed := True\<rparr>,
                      emitted (work r)))
            | Later \<Rightarrow>
                (eff\<lparr>inFlight := inFlight eff @ [started eff], started := Suc (started eff)\<rparr>,
                 []))
      else (eff, []))"
| "mergeMap trigger project work eff (Settled i r) =
     (if \<not> failed eff \<and> i \<in> set (inFlight eff)
      then (case failure (work r) of
              None \<Rightarrow> (eff\<lparr>inFlight := removeAll i (inFlight eff)\<rparr>, emitted (work r))
            | Some e \<Rightarrow> (eff\<lparr>inFlight := [], failed := True\<rparr>, emitted (work r)))
      else (eff, []))"

text \<open>
  The three dispatching effects. The first argument is what the call of the service
  does when the project function makes it. The observable of an HTTP request settles
  later, and the event of its settlement carries what the returned observable did; the
  observable \<open>logout\<close> returns has settled when it is returned.
\<close>

definition login_effect ::
  "Error + 'p \<Rightarrow> EffectState \<Rightarrow> User obj Observable event \<Rightarrow> EffectState \<times> Action list" where
  "login_effect call =
     mergeMap (ofType ''[Auth] Login'')
       (\<lambda>a. case call of Inl e \<Rightarrow> Raises e | Inr returned \<Rightarrow> Later) login_work"

definition logout_effect ::
  "Error + unit Observable \<Rightarrow> EffectState \<Rightarrow> unit Observable event
     \<Rightarrow> EffectState \<times> Action list" where
  "logout_effect call =
     mergeMap (ofType ''[Auth] Logout'')
       (\<lambda>a. case call of Inl e \<Rightarrow> Raises e | Inr returned \<Rightarrow> Now returned) logout_work"

definition getUserProfile_effect ::
  "Error + 'p \<Rightarrow> EffectState \<Rightarrow> User obj Observable event \<Rightarrow> EffectState \<times> Action list" where
  "getUserProfile_effect call =
     mergeMap (ofType ''[User] Get User Profile'')
       (\<lambda>a. case call of Inl e \<Rightarrow> Raises e | Inr returned \<Rightarrow> Later) getUserProfile_work"

definition idle :: EffectState where
  \<comment> \<open>an effect that has just been subscribed\<close>
  "idle = \<lparr>inFlight = [], started = 0, failed = False\<rparr>"

fun effect_run ::
  "(EffectState \<Rightarrow> 'r event \<Rightarrow> EffectState \<times> Action list) \<Rightarrow> EffectState \<Rightarrow> 'r event list
     \<Rightarrow> EffectState \<times> Action list" where
  \<comment> \<open>an effect over a sequence of events: its last state and all it emitted, in order\<close>
  "effect_run effect eff [] = (eff, [])"
| "effect_run effect eff (ev # evs) =
     (case effect eff ev of
        (eff1, out1) \<Rightarrow>
          (case effect_run effect eff1 evs of
             (eff2, out2) \<Rightarrow> (eff2, out1 @ out2)))"

text \<open>
  The program as a whole: the store, the three dispatching effects with the service of
  the source injected, and the log of the actions that reached the store. An action a
  component dispatches goes to the store and then to every effect; what an effect emits
  is dispatched in turn. No effect listens to the type of an action an effect emits, and
  the two effects that navigate emit nothing. The other inputs are the settlements of
  the observables that the login calls and the profile calls returned.
\<close>

datatype input =
    Dispatch Action
  | LoginSettled nat "User obj Observable"
  | ProfileSettled nat "User obj Observable"

record System =
  theStore :: Store
  loginEffect :: EffectState
  logoutEffect :: EffectState
  getUserProfileEffect :: EffectState
  actionLog :: "Action list"

definition startSystem :: "addr \<Rightarrow> System" where
  "startSystem a =
     \<lparr>theStore = createStore a, loginEffect = idle, logoutEffect = idle,
      getUserProfileEffect = idle, actionLog = []\<rparr>"

fun step :: "LocalStorage \<Rightarrow> System \<Rightarrow> input \<Rightarrow> System" where
  "step localStorage sys (Dispatch a) =
     (case login_effect (AuthService_login localStorage) (loginEffect sys) (Dispatched a) of
        (eff1, out1) \<Rightarrow>
     (case logout_effect (AuthService_logout localStorage) (logoutEffect sys) (Dispatched a) of
        (eff2, out2) \<Rightarrow>
     (case getUserProfile_effect AuthService_getCurrentUser (getUserProfileEffect sys)
             (Dispatched a) of
        (eff3, out3) \<Rightarrow>
          \<lparr>theStore = foldl dispatch (theStore sys) (a # out1 @ out2 @ out3),
           loginEffect = eff1, logoutEffect = eff2, getUserProfileEffect = eff3,
           actionLog = actionLog sys @ a # out1 @ out2 @ out3\<rparr>)))"
| "step localStorage sys (LoginSettled i returned) =
     (case login_effect (AuthService_login localStorage) (loginEffect sys) (Settled i returned) of
        (eff1, out1) \<Rightarrow>
          sys\<lparr>theStore := foldl dispatch (theStore sys) out1, loginEffect := eff1,
              actionLog := actionLog sys @ out1\<rparr>)"
| "step localStorage sys (ProfileSettled i returned) =
     (case getUserProfile_effect AuthService_getCurrentUser (getUserProfileEffect sys)
             (Settled i returned) of
        (eff3, out3) \<Rightarrow>
          sys\<lparr>theStore := foldl dispatch (theStore sys) out3, getUserProfileEffect := eff3,
              actionLog := actionLog sys @ out3\<rparr>)"

definition run :: "LocalStorage \<Rightarrow> System \<Rightarrow> input list \<Rightarrow> System" where
  "run localStorage = foldl (step localStorage)"

section \<open>Selectors (user.selectors.ts)\<close>

record ('i, 'o) Memo =
  cached :: "('i \<times> 'o) option"
  computations :: nat

text \<open>
  Modelled from the spec: the memoization inside \<open>createSelector\<close>, which the source
  imports from the store library and does not define. A selector node caches the input
  values it saw last and the output it computed last; a read whose inputs are \<open>===\<close>
  to the cached ones returns the cached output, any other read runs the projection and
  replaces the cache. The notes of the repository say the same of its selectors: they
  only recalculate when their inputs change. The memo counts the runs of the projection.
\<close>

definition defaultMemoize ::
  "('i \<Rightarrow> 'o) \<Rightarrow> ('i \<Rightarrow> 'i \<Rightarrow> bool) \<Rightarrow> ('i, 'o) Memo \<Rightarrow> 'i \<Rightarrow> 'o \<times> ('i, 'o) Memo" where
  "defaultMemoize projectionFn isArgumentsEqual memo arg =
     (case cached memo of
        Some (lastArguments, lastResult) \<Rightarrow>
          if isArgumentsEqual arg lastArguments then (lastResult, memo)
          else (projectionFn arg,
                \<lparr>cached = Some (arg, projectionFn arg), computations = Suc (computations memo)\<rparr>)
      | None \<Rightarrow>
          (projectionFn arg,
           \<lparr>cached = Some (arg, projectionFn arg), computations = Suc (computations memo)\<rparr>))"

text \<open>The caches of the six selectors of the source.\<close>

record SelectorGraph =
  userStateMemo :: "(UserState obj, UserState obj) Memo"
  currentUserMemo :: "(UserState obj, User obj option) Memo"
  isAuthenticatedMemo :: "(UserState obj, bool) Memo"
  userLoadingMemo :: "(UserState obj, bool) Memo"
  userErrorMemo :: "(UserState obj, string option) Memo"
  userRoleMemo :: "(User obj option, string option) Memo"

definition newMemo :: "('i, 'o) Memo" where
  "newMemo = \<lparr>cached = None, computations = 0\<rparr>"

definition newGraph :: SelectorGraph where
  "newGraph =
     \<lparr>userStateMemo = newMemo, currentUserMemo = newMemo, isAuthenticatedMemo = newMemo,
      userLoadingMemo = newMemo, userErrorMemo = newMemo, userRoleMemo = newMemo\<rparr>"

type_synonym 'o Selector = "AppState obj \<Rightarrow> SelectorGraph \<Rightarrow> 'o \<times> SelectorGraph"

text \<open>
  A selector is read on a state and returns its value and the caches as the read leaves
  them. \<open>createSelector\<close> takes the input selector, the projection, the \<open>===\<close> of the
  input's type, and where its own cache lies among the caches.
\<close>

definition createSelector ::
  "'i Selector \<Rightarrow> ('i \<Rightarrow> 'o) \<Rightarrow> ('i \<Rightarrow> 'i \<Rightarrow> bool)
     \<Rightarrow> (SelectorGraph \<Rightarrow> ('i, 'o) Memo) \<Rightarrow> (('i, 'o) Memo \<Rightarrow> SelectorGraph \<Rightarrow> SelectorGraph)
     \<Rightarrow> 'o Selector" where
  "createSelector input projector same get put root g =
     (case input root g of
        (arg, g1) \<Rightarrow>
          (case defaultMemoize projector same (get g1) arg of
             (result, memo) \<Rightarrow> (result, put memo g1)))"

definition selectUserState :: "UserState obj Selector" where
  \<comment> \<open>\<open>createFeatureSelector('user')\<close>: the projection of a feature selector is the identity\<close>
  "selectUserState =
     createSelector (\<lambda>root g. (user (snd root), g)) (\<lambda>featureState. featureState) sameRef
       userStateMemo (\<lambda>m g. g\<lparr>userStateMemo := m\<rparr>)"

definition selectCurrentUser :: "User obj option Selector" where
  "selectCurrentUser =
     createSelector selectUserState (\<lambda>s. currentUser (snd s)) sameRef
       currentUserMemo (\<lambda>m g. g\<lparr>currentUserMemo := m\<rparr>)"

definition selectIsAuthenticated :: "bool Selector" where
  "selectIsAuthenticated =
     createSelector selectUserState (\<lambda>s. isAuthenticated (snd s)) sameRef
       isAuthenticatedMemo (\<lambda>m g. g\<lparr>isAuthenticatedMemo := m\<rparr>)"

definition selectUserLoading :: "bool Selector" where
  "selectUserLoading =
     createSelector selectUserState (\<lambda>s. loading (snd s)) sameRef
       userLoadingMemo (\<lambda>m g. g\<lparr>userLoadingMemo := m\<rparr>)"

definition selectUserError :: "string option Selector" where
  "selectUserError =
     createSelector selectUserState (\<lambda>s. error (snd s)) sameRef
       userErrorMemo (\<lambda>m g. g\<lparr>userErrorMemo := m\<rparr>)"

definition selectUserRole :: "string option Selector" where
  \<comment> \<open>\<open>user?.role\<close> is undefined when there is no user\<close>
  "selectUserRole =
     createSelector selectCurrentUser (map_option (\<lambda>u. role (snd u))) sameRefOrNull
       userRoleMemo (\<lambda>m g. g\<lparr>userRoleMemo := m\<rparr>)"


definition valueOf :: "'o Selector \<Rightarrow> AppState obj \<Rightarrow> 'o" where
  \<comment> \<open>what the selector computes for a state when nothing is cached\<close>
  "valueOf sel root = fst (sel root newGraph)"



section \<open>Example values\<close>

definition cartAction :: Action where
  \<comment> \<open>an action of another feature\<close>
  "cartAction = Foreign (otherType ''[Cart] Add Item'')"

definition alice :: "User obj" where
  "alice = (7, \<lparr>id' = ''1'', name = ''Alice'', email = ''alice@example.com'', role = ''admin''\<rparr>)"

definition bob :: "User obj" where
  "bob = (8, \<lparr>id' = ''2'', name = ''Bob'', email = ''bob@example.com'', role = ''user''\<rparr>)"

definition busyStore :: Store where
  \<comment> \<open>the store after a first login request: \<open>loading\<close> is true and \<open>error\<close> is null\<close>
  "busyStore = dispatch (createStore 0) (login ''a'' ''b'')"

definition overlappingLogins :: "User obj Observable event list" where
  \<comment> \<open>two login requests; the observable of the second call resolves first, the one of
      the first call after it\<close>
  "overlappingLogins =
     [Dispatched (login ''a'' ''b''), Dispatched (login ''c'' ''d''),
      Settled 1 (rx_of bob), Settled 0 (rx_of alice)]"

definition workingStorage :: LocalStorage where
  "workingStorage = \<lparr>setItem = (\<lambda>key val. None), removeItem = (\<lambda>key. None)\<rparr>"

definition deniedStorage :: LocalStorage where
  \<comment> \<open>a browser that denies the page its storage\<close>
  "deniedStorage =
     \<lparr>setItem = (\<lambda>key val. Some (Error ''The operation is insecure.'')),
      removeItem = (\<lambda>key. Some (Error ''The operation is insecure.''))\<rparr>"

definition loggedIn :: System where
  \<comment> \<open>the program with alice logged in\<close>
  "loggedIn =
     \<lparr>theStore = dispatch (createStore 0) (loginSuccess alice), loginEffect = idle,
      logoutEffect = idle, getUserProfileEffect = idle, actionLog = [loginSuccess alice]\<rparr>"

section \<open>Properties of the reducer\<close>

lemma type_registered:
  "type a \<in> set registeredTypes \<longleftrightarrow> (\<forall>t. a \<noteq> Foreign t)"
proof (cases a)
  case (Foreign t)
  have "Rep_foreignType t \<notin> set registeredTypes"
    using Rep_foreignType [of t] by simp
  with Foreign show ?thesis by simp
qed (simp_all add: registeredTypes_def)

lemma userReducer_obj_value:
  "snd (fst (userReducer_obj fresh st a)) = userReducer (snd st) a"
  by (cases a) simp_all

lemma wellFormed_createStore: "wellFormed (createStore a)"
  by (simp add: wellFormed_def createStore_def)

lemma wellFormed_dispatch: "wellFormed store \<Longrightarrow> wellFormed (dispatch store a)"
  by (cases a) (simp_all add: wellFormed_def dispatch_def rootReducer_def sameRef_def Let_def)

lemma wellFormed_foldl_dispatch: "wellFormed store \<Longrightarrow> wellFormed (foldl dispatch store as)"
  by (induction as arbitrary: store) (simp_all add: wellFormed_dispatch)

lemma dispatch_sliceValue:
  "wellFormed store \<Longrightarrow>
     sliceValue (state (dispatch store a)) = userReducer (sliceValue (state store)) a"
  by (cases a)
     (simp_all add: wellFormed_def dispatch_def rootReducer_def sliceValue_def sameRef_def Let_def)

lemma foldl_dispatch_sliceValue:
  "wellFormed store \<Longrightarrow>
     sliceValue (state (foldl dispatch store as)) =
       foldl userReducer (sliceValue (state store)) as"
  by (induction as arbitrary: store) (simp_all add: dispatch_sliceValue wellFormed_dispatch)

lemma createStore_sliceValue: "sliceValue (state (createStore a)) = initialUserState"
  by (simp add: createStore_def sliceValue_def)

text \<open>
  C1. Replaying an action sequence from the initial state gives deeply equal final
  states, whatever addresses the two runs build their objects at: the fields of the final
  slice are the fold of \<open>userReducer\<close> over the sequence. And two applications of the
  reducer to the same state and action return objects with equal fields.
\<close>

theorem deterministic_replay:
  "sliceValue (state (foldl dispatch (createStore f1) as)) =
     sliceValue (state (foldl dispatch (createStore f2) as))
   \<and> sliceValue (state (foldl dispatch (createStore f1) as)) =
     foldl userReducer initialUserState as
   \<and> snd (fst (userReducer_obj f1 s a)) = snd (fst (userReducer_obj f2 s a))"
  by (simp add: foldl_dispatch_sliceValue wellFormed_createStore createStore_sliceValue
      userReducer_obj_value)


section \<open>Unrecognized actions\<close>

lemma foreign_action: "type a \<notin> set registeredTypes \<Longrightarrow> \<exists>t. a = Foreign t"
  by (simp add: type_registered)

lemma dispatch_foreign: "dispatch store (Foreign t) = store"
  by (simp add: dispatch_def rootReducer_def sameRef_def)

lemma distinctUntilChanged_same:
  "same v v \<Longrightarrow> distinctUntilChanged same v (replicate n v) = []"
  by (induction n) simp_all

text \<open>
  C2. An action whose type is none of the seven registered ones: the reducer returns the
  state it was given, the very same object; the store after the dispatch is the store
  before it, with the same state reference; and a subscriber of any selection is
  delivered nothing. \<open>dispatch\<close> is a total function: no path of it raises.
\<close>

theorem unrecognized_action_noop:
  assumes "type a \<notin> set registeredTypes" and "\<And>v. same v v"
  shows "userReducer s a = s
    \<and> userReducer_obj fresh so a = (so, fresh)
    \<and> dispatch store a = store
    \<and> sameRef (state (dispatch store a)) (state store)
    \<and> notifications sel same store [a] = []"
proof -
  obtain t where a: "a = Foreign t"
    using foreign_action [OF assms(1)] by blast
  have "notifications sel same store [Foreign t] = []"
    using assms(2) by (simp add: notifications_def dispatch_foreign)
  with a show ?thesis
    by (simp add: dispatch_foreign sameRef_def)
qed

lemma type_cartAction: "type cartAction = ''[Cart] Add Item''"
  by (simp add: cartAction_def otherType.rep_eq registeredTypes_def)

theorem unrecognized_action_noop_witness:
  "type cartAction \<notin> set registeredTypes
   \<and> dispatch (createStore 0) cartAction = createStore 0
   \<and> notifications (\<lambda>root. user (snd root)) sameRef (createStore 0) [cartAction] = []"
proof -
  have t: "type cartAction \<notin> set registeredTypes"
    by (simp add: type_cartAction registeredTypes_def)
  have r: "\<And>v :: UserState obj. sameRef v v"
    by (simp add: sameRef_def)
  show ?thesis
    using t unrecognized_action_noop [where a = cartAction and same = sameRef
        and store = "createStore 0" and sel = "\<lambda>root. user (snd root)", OF t r]
    by simp
qed

section \<open>Dispatches that change no field\<close>

lemma busyStore_eq:
  "busyStore =
     \<lparr>state = (3, \<lparr>user = (2, initialUserState\<lparr>loading := True\<rparr>)\<rparr>), nextAddr = 4\<rparr>"
  by (simp add: busyStore_def createStore_def dispatch_def rootReducer_def sameRef_def
      initialUserState_def numeral_eq_Suc)

text \<open>
  C3 fails as stated: a second login request, dispatched when \<open>loading\<close> is already true
  and \<open>error\<close> already null, leaves every field of the slice as it was, and still the
  state after the dispatch is another object than the state before it.
\<close>

theorem login_when_busy_counterexample:
  "loading (sliceValue (state busyStore))
   \<and> error (sliceValue (state busyStore)) = None
   \<and> sliceValue (state (dispatch busyStore (login ''a'' ''b''))) = sliceValue (state busyStore)
   \<and> \<not> sameRef (state (dispatch busyStore (login ''a'' ''b''))) (state busyStore)"
  by (simp add: busyStore_eq sliceValue_def dispatch_def rootReducer_def sameRef_def
      initialUserState_def)

lemma dispatch_registered:
  assumes "wellFormed store" and "type a \<in> set registeredTypes"
  shows "\<not> sameRef (state (dispatch store a)) (state store)"
proof -
  have "\<forall>t. a \<noteq> Foreign t"
    using assms(2) type_registered [of a] by blast
  then show ?thesis
    using assms(1)
    by (cases a) (simp_all add: wellFormed_def dispatch_def rootReducer_def sameRef_def)
qed

text \<open>
  C3, amended. The state after a dispatch is the object it was before whenever the slice
  reducer returns the slice object it was given, as \<open>userReducer\<close> does for every
  unregistered action type. For a registered type the handler builds a new slice object
  and the store commits a new state object: a login request dispatched when \<open>loading\<close>
  is already true and \<open>error\<close> already null keeps every field and changes the reference.
\<close>

theorem state_reference_after_dispatch:
  assumes "wellFormed store"
  shows "(sameRef (fst (userReducer_obj (nextAddr store) (user (snd (state store))) a))
            (user (snd (state store)))
          \<longrightarrow> state (dispatch store a) = state store)
    \<and> (type a \<notin> set registeredTypes \<longrightarrow> state (dispatch store a) = state store)
    \<and> (type a \<in> set registeredTypes \<longrightarrow> \<not> sameRef (state (dispatch store a)) (state store))
    \<and> (loading (sliceValue (state store)) \<and> error (sliceValue (state store)) = None
          \<longrightarrow> sliceValue (state (dispatch store (login username password)))
                = sliceValue (state store)
            \<and> \<not> sameRef (state (dispatch store (login username password))) (state store))"
proof -
  have 1: "sameRef (fst (userReducer_obj (nextAddr store) (user (snd (state store))) a))
            (user (snd (state store)))
          \<longrightarrow> state (dispatch store a) = state store"
    by (simp add: dispatch_def rootReducer_def Let_def split: prod.splits)
  have 2: "type a \<notin> set registeredTypes \<longrightarrow> state (dispatch store a) = state store"
    using foreign_action [of a] by (auto simp: dispatch_foreign)
  have 3: "type a \<in> set registeredTypes
          \<longrightarrow> \<not> sameRef (state (dispatch store a)) (state store)"
    using assms by (simp add: dispatch_registered)
  have 4: "loading (sliceValue (state store)) \<and> error (sliceValue (state store)) = None
          \<longrightarrow> sliceValue (state (dispatch store (login username password)))
                = sliceValue (state store)"
    using assms by (simp add: dispatch_sliceValue)
  have 5: "\<not> sameRef (state (dispatch store (login username password))) (state store)"
    using assms by (simp add: dispatch_registered registeredTypes_def)
  from 1 2 3 4 5 show ?thesis by blast
qed

theorem state_reference_after_dispatch_witness:
  "wellFormed busyStore
   \<and> type cartAction \<notin> set registeredTypes
   \<and> state (dispatch busyStore cartAction) = state busyStore
   \<and> type (login ''a'' ''b'') \<in> set registeredTypes
   \<and> loading (sliceValue (state busyStore)) \<and> error (sliceValue (state busyStore)) = None
   \<and> sliceValue (state (dispatch busyStore (login ''a'' ''b''))) = sliceValue (state busyStore)
   \<and> \<not> sameRef (state (dispatch busyStore (login ''a'' ''b''))) (state busyStore)"
proof -
  have w: "wellFormed busyStore"
    by (simp add: busyStore_eq wellFormed_def)
  have t: "type cartAction \<notin> set registeredTypes"
    by (simp add: type_cartAction registeredTypes_def)
  have l: "loading (sliceValue (state busyStore)) \<and> error (sliceValue (state busyStore)) = None"
    by (simp add: busyStore_eq sliceValue_def initialUserState_def)
  show ?thesis
    using w t l state_reference_after_dispatch [OF w, of cartAction "''a''" "''b''"]
      state_reference_after_dispatch [OF w, of "login ''a'' ''b''" "''a''" "''b''"]
    by (simp add: registeredTypes_def)
qed

section \<open>Invariant and frame of the reducer\<close>

lemma userReducer_invariant:
  "(isAuthenticated s \<longrightarrow> currentUser s \<noteq> None) \<Longrightarrow>
     isAuthenticated (userReducer s a) \<longrightarrow> currentUser (userReducer s a) \<noteq> None"
  by (cases a) (simp_all add: initialUserState_def)

lemma foldl_userReducer_invariant:
  "(isAuthenticated s \<longrightarrow> currentUser s \<noteq> None) \<Longrightarrow>
     isAuthenticated (foldl userReducer s as) \<longrightarrow> currentUser (foldl userReducer s as) \<noteq> None"
proof (induction as arbitrary: s)
  case Nil
  then show ?case by simp
next
  case (Cons a as)
  from Cons.prems have "isAuthenticated (userReducer s a) \<longrightarrow> currentUser (userReducer s a) \<noteq> None"
    by (rule userReducer_invariant)
  then show ?case
    using Cons.IH [of "userReducer s a"] by simp
qed

text \<open>
  C8. In every state reached from \<open>initialUserState\<close> by any sequence of actions, an
  authenticated state holds a user. The login success handler is the only one that turns
  \<open>isAuthenticated\<close> on, and it stores the user of its action; the logout success
  handler resets both fields.
\<close>

theorem authenticated_implies_user:
  "(isAuthenticated (foldl userReducer initialUserState as)
      \<longrightarrow> currentUser (foldl userReducer initialUserState as) \<noteq> None)
   \<and> (\<not> isAuthenticated s \<and> isAuthenticated (userReducer s a)
      \<longrightarrow> (\<exists>u. a = loginSuccess u \<and> currentUser (userReducer s a) = Some u))
   \<and> \<not> isAuthenticated (userReducer s logoutSuccess)
   \<and> currentUser (userReducer s logoutSuccess) = None"
proof -
  have "isAuthenticated (foldl userReducer initialUserState as)
      \<longrightarrow> currentUser (foldl userReducer initialUserState as) \<noteq> None"
    by (rule foldl_userReducer_invariant) (simp add: initialUserState_def)
  moreover have "\<not> isAuthenticated s \<and> isAuthenticated (userReducer s a)
      \<longrightarrow> (\<exists>u. a = loginSuccess u \<and> currentUser (userReducer s a) = Some u)"
    by (cases a) (simp_all add: initialUserState_def)
  ultimately show ?thesis
    by (simp add: initialUserState_def)
qed

theorem authenticated_implies_user_witness:
  "isAuthenticated (foldl userReducer initialUserState [login ''a'' ''b'', loginSuccess alice])
   \<and> currentUser (foldl userReducer initialUserState [login ''a'' ''b'', loginSuccess alice])
       \<noteq> None
   \<and> \<not> isAuthenticated initialUserState
   \<and> isAuthenticated (userReducer initialUserState (loginSuccess alice))
   \<and> currentUser (userReducer initialUserState (loginSuccess alice)) = Some alice"
  using authenticated_implies_user
    [of "[login ''a'' ''b'', loginSuccess alice]" initialUserState "loginSuccess alice"]
  by (simp add: initialUserState_def)

text \<open>
  C9. A login failure changes \<open>loading\<close> (to false) and \<open>error\<close> (to the message) and
  nothing else: the user and the authentication flag are those of the state before.
\<close>

theorem login_failure_frame:
  "userReducer s (loginFailure e) = s\<lparr>loading := False, error := Some e\<rparr>
   \<and> currentUser (userReducer s (loginFailure e)) = currentUser s
   \<and> isAuthenticated (userReducer s (loginFailure e)) = isAuthenticated s
   \<and> loading (userReducer s (loginFailure e)) = False
   \<and> error (userReducer s (loginFailure e)) = Some e"
  by simp

section \<open>What the selectors compute\<close>

lemma valueOf_selectUserState: "valueOf selectUserState root = user (snd root)"
  by (simp add: valueOf_def selectUserState_def createSelector_def defaultMemoize_def
      newGraph_def newMemo_def)

lemma valueOf_selectCurrentUser: "valueOf selectCurrentUser root = currentUser (sliceValue root)"
  by (simp add: valueOf_def selectCurrentUser_def selectUserState_def createSelector_def
      defaultMemoize_def newGraph_def newMemo_def sliceValue_def)

lemma valueOf_selectIsAuthenticated:
  "valueOf selectIsAuthenticated root = isAuthenticated (sliceValue root)"
  by (simp add: valueOf_def selectIsAuthenticated_def selectUserState_def createSelector_def
      defaultMemoize_def newGraph_def newMemo_def sliceValue_def)

lemma state_createStore: "state (createStore a) = (Suc a, \<lparr>user = (a, initialUserState)\<rparr>)"
  by (simp add: createStore_def)

section \<open>The login effect and a failing call\<close>

lemma emitted_rx_of [simp]: "emitted (rx_of x) = [x]"
  by (simp add: rx_of_def)

lemma failure_rx_of [simp]: "failure (rx_of x) = None"
  by (simp add: rx_of_def)

lemma login_work_failure: "failure (login_work returned) = None"
  by (cases returned; cases "failure returned") (auto simp: login_work_def)

lemma login_work_emitted_error:
  "emitted (login_work (Observable xs (Some e))) = map loginSuccess xs @ [loginFailure (message e)]"
  by (simp add: login_work_def)

lemma login_work_ok: "login_work (rx_of u) = rx_of (loginSuccess u)"
  by (simp add: login_work_def rx_of_def)

lemma AuthService_login_raises:
  "AuthService_login localStorage = Inl (Error ''map is not defined'')"
  by (simp add: AuthService_login_def authService_operators_def)

lemma login_effect_raised:
  "\<not> failed eff \<Longrightarrow>
     login_effect (Inl e) eff (Dispatched (login u p)) = (eff\<lparr>inFlight := [], failed := True\<rparr>, [])"
  by (simp add: login_effect_def ofType_def)

lemma login_effect_returned:
  "\<not> failed eff \<Longrightarrow>
     login_effect (Inr returned) eff (Dispatched (login u p)) =
       (eff\<lparr>inFlight := inFlight eff @ [started eff], started := Suc (started eff)\<rparr>, [])"
  by (simp add: login_effect_def ofType_def)

lemma login_effect_settled:
  "\<not> failed eff \<Longrightarrow> i \<in> set (inFlight eff) \<Longrightarrow>
     login_effect call eff (Settled i returned) =
       (eff\<lparr>inFlight := removeAll i (inFlight eff)\<rparr>, emitted (login_work returned))"
  by (simp add: login_effect_def login_work_failure)

lemma logout_effect_other: "type a \<noteq> ''[Auth] Logout'' \<Longrightarrow> logout_effect call eff (Dispatched a) = (eff, [])"
  by (simp add: logout_effect_def ofType_def)

lemma login_effect_other: "type a \<noteq> ''[Auth] Login'' \<Longrightarrow> login_effect call eff (Dispatched a) = (eff, [])"
  by (simp add: login_effect_def ofType_def)

lemma getUserProfile_effect_other:
  "type a \<noteq> ''[User] Get User Profile'' \<Longrightarrow> getUserProfile_effect call eff (Dispatched a) = (eff, [])"
  by (simp add: getUserProfile_effect_def ofType_def)

lemma step_login:
  "\<not> failed (loginEffect sys) \<Longrightarrow>
     step localStorage sys (Dispatch (login u p)) =
       sys\<lparr>theStore := dispatch (theStore sys) (login u p),
           loginEffect := (loginEffect sys)\<lparr>inFlight := [], failed := True\<rparr>,
           actionLog := actionLog sys @ [login u p]\<rparr>"
  by (simp add: AuthService_login_raises login_effect_raised logout_effect_other
      getUserProfile_effect_other)

lemma run_login:
  "run localStorage (startSystem a0) [Dispatch (login u p)] =
     \<lparr>theStore = dispatch (createStore a0) (login u p),
      loginEffect = \<lparr>inFlight = [], started = 0, failed = True\<rparr>,
      logoutEffect = idle, getUserProfileEffect = idle, actionLog = [login u p]\<rparr>"
  by (simp add: run_def step_login startSystem_def idle_def del: step.simps)

text \<open>
  C5 does not hold of the code. A call of the login service that raises does so inside
  the project function of \<open>mergeMap\<close>, outside the inner \<open>catchError\<close>: the effect
  emits no login failure action and its output fails, with every invocation in flight
  dropped. The service of the source raises on every call, for the name \<open>map\<close> that its
  file does not import, so a login request is never answered and the slice stays
  loading. For a call that returns, it is as the claim says: when the returned observable
  fails, the effect emits one login failure action with the message of the error, the
  inner observable completes, and only the settled invocation leaves the ones in flight.
\<close>

theorem login_call_fault:
  "AuthService_login localStorage = Inl (Error ''map is not defined'')
   \<and> (\<not> failed eff \<longrightarrow>
        login_effect (Inl e) eff (Dispatched (login u p)) =
          (eff\<lparr>inFlight := [], failed := True\<rparr>, []))
   \<and> actionLog (run localStorage (startSystem a0) [Dispatch (login u p)]) = [login u p]
   \<and> failed (loginEffect (run localStorage (startSystem a0) [Dispatch (login u p)]))
   \<and> loading (sliceValue (state (theStore
        (run localStorage (startSystem a0) [Dispatch (login u p)]))))
   \<and> emitted (login_work (Observable xs (Some e))) =
        map loginSuccess xs @ [loginFailure (message e)]
   \<and> failure (login_work returned) = None
   \<and> (\<not> failed eff \<and> i \<in> set (inFlight eff) \<longrightarrow>
        login_effect call eff (Settled i (throwError e)) =
          (eff\<lparr>inFlight := removeAll i (inFlight eff)\<rparr>, [loginFailure (message e)]))"
proof -
  have s: "loading (sliceValue (state (dispatch (createStore a0) (login u p))))"
    by (simp add: dispatch_sliceValue wellFormed_createStore)
  have t: "emitted (login_work (throwError e)) = [loginFailure (message e)]"
    by (simp add: throwError_def login_work_emitted_error)
  show ?thesis
    by (simp add: AuthService_login_raises login_effect_raised run_login s
        login_work_emitted_error login_work_failure login_effect_settled t)
qed

theorem login_call_fault_witness:
  "\<not> failed \<lparr>inFlight = [0, 1], started = 2, failed = False\<rparr>
   \<and> login_effect (AuthService_login deniedStorage)
        \<lparr>inFlight = [0, 1], started = 2, failed = False\<rparr> (Dispatched (login ''a'' ''b''))
       = (\<lparr>inFlight = [], started = 2, failed = True\<rparr>, [])
   \<and> 0 \<in> set (inFlight \<lparr>inFlight = [0, 1], started = 2, failed = False\<rparr>)
   \<and> login_effect (Inr ()) \<lparr>inFlight = [0, 1], started = 2, failed = False\<rparr>
        (Settled 0 (throwError (Error ''timeout'')))
       = (\<lparr>inFlight = [1], started = 2, failed = False\<rparr>, [loginFailure ''timeout''])"
  using login_call_fault [where eff = "\<lparr>inFlight = [0, 1], started = 2, failed = False\<rparr>"
      and localStorage = deniedStorage and e = "Error ''map is not defined''" and u = "''a''"
      and p = "''b''", THEN conjunct2, THEN conjunct1]
    login_call_fault [where eff = "\<lparr>inFlight = [0, 1], started = 2, failed = False\<rparr>"
      and localStorage = deniedStorage and e = "Error ''timeout''" and i = 0 and call = "Inr ()",
      THEN conjunct2, THEN conjunct2, THEN conjunct2, THEN conjunct2, THEN conjunct2,
      THEN conjunct2, THEN conjunct2]
  by (simp add: AuthService_login_raises)

section \<open>Logout\<close>

lemma logout_work_ok: "logout_work (rx_of ()) = rx_of logoutSuccess"
  by (simp add: logout_work_def rx_of_def)

lemma logout_work_error: "logout_work (throwError e) = rx_of logoutSuccess"
  by (simp add: logout_work_def rx_of_def throwError_def)

lemma AuthService_logout_returns:
  "removeItem localStorage tokenKey = None \<Longrightarrow> AuthService_logout localStorage = Inr (rx_of ())"
  by (simp add: AuthService_logout_def)

lemma AuthService_logout_raises:
  "removeItem localStorage tokenKey = Some e \<Longrightarrow> AuthService_logout localStorage = Inl e"
  by (simp add: AuthService_logout_def)

lemma logout_effect_returned:
  "\<not> failed eff \<Longrightarrow>
     logout_effect (Inr (rx_of ())) eff (Dispatched logout) =
       (eff\<lparr>started := Suc (started eff)\<rparr>, [logoutSuccess])"
  by (simp add: logout_effect_def ofType_def logout_work_ok)

lemma logout_effect_raised:
  "\<not> failed eff \<Longrightarrow>
     logout_effect (Inl e) eff (Dispatched logout) = (eff\<lparr>inFlight := [], failed := True\<rparr>, [])"
  by (simp add: logout_effect_def ofType_def)

lemma step_logout_returns:
  assumes "removeItem localStorage tokenKey = None" and "\<not> failed (logoutEffect sys)"
  shows "step localStorage sys (Dispatch logout) =
       sys\<lparr>theStore := foldl dispatch (theStore sys) [logout, logoutSuccess],
           logoutEffect := (logoutEffect sys)\<lparr>started := Suc (started (logoutEffect sys))\<rparr>,
           actionLog := actionLog sys @ [logout, logoutSuccess]\<rparr>"
  using assms
  by (simp add: AuthService_logout_returns logout_effect_returned login_effect_other
      getUserProfile_effect_other)

lemma step_logout_raises:
  assumes "removeItem localStorage tokenKey = Some e" and "\<not> failed (logoutEffect sys)"
  shows "step localStorage sys (Dispatch logout) =
       sys\<lparr>theStore := dispatch (theStore sys) logout,
           logoutEffect := (logoutEffect sys)\<lparr>inFlight := [], failed := True\<rparr>,
           actionLog := actionLog sys @ [logout]\<rparr>"
  using assms
  by (simp add: AuthService_logout_raises logout_effect_raised login_effect_other
      getUserProfile_effect_other)

lemma logout_then_success:
  "wellFormed store \<Longrightarrow>
     sliceValue (state (foldl dispatch store [logout, logoutSuccess])) = initialUserState"
  by (simp only: foldl_dispatch_sliceValue) simp

text \<open>
  C10 does not hold of the code when the storage raises. Both branches of the inner
  pipeline give the logout success action, and its handler maps every state to
  \<open>initialUserState\<close>, which is not authenticated and holds no user: a logout request
  whose call of the service returns is followed by one logout success action and ends in
  the initial state. But the call removes the token before it returns its observable.
  When the storage raises, the call raises inside the project function, outside the
  inner \<open>catchError\<close>: no logout success action follows, the output of the effect fails,
  and the state stays as the logout handler left it.
\<close>

theorem logout_attempt:
  "logout_work (rx_of ()) = rx_of logoutSuccess
   \<and> logout_work (throwError e) = rx_of logoutSuccess
   \<and> userReducer s logoutSuccess = initialUserState
   \<and> \<not> isAuthenticated initialUserState \<and> currentUser initialUserState = None
   \<and> (removeItem localStorage tokenKey = None \<and> \<not> failed (logoutEffect sys)
        \<and> wellFormed (theStore sys) \<longrightarrow>
        actionLog (step localStorage sys (Dispatch logout)) = actionLog sys @ [logout, logoutSuccess]
        \<and> sliceValue (state (theStore (step localStorage sys (Dispatch logout))))
            = initialUserState
        \<and> \<not> failed (logoutEffect (step localStorage sys (Dispatch logout))))
   \<and> (removeItem localStorage tokenKey = Some e \<and> \<not> failed (logoutEffect sys)
        \<and> wellFormed (theStore sys) \<longrightarrow>
        actionLog (step localStorage sys (Dispatch logout)) = actionLog sys @ [logout]
        \<and> sliceValue (state (theStore (step localStorage sys (Dispatch logout))))
            = (sliceValue (state (theStore sys)))\<lparr>loading := True\<rparr>
        \<and> failed (logoutEffect (step localStorage sys (Dispatch logout))))"
proof -
  have init: "\<not> isAuthenticated initialUserState \<and> currentUser initialUserState = None"
    by (simp add: initialUserState_def)
  have ok: "removeItem localStorage tokenKey = None \<and> \<not> failed (logoutEffect sys)
        \<and> wellFormed (theStore sys) \<longrightarrow>
        actionLog (step localStorage sys (Dispatch logout)) = actionLog sys @ [logout, logoutSuccess]
        \<and> sliceValue (state (theStore (step localStorage sys (Dispatch logout))))
            = initialUserState
        \<and> \<not> failed (logoutEffect (step localStorage sys (Dispatch logout)))"
    using logout_then_success [of "theStore sys"]
    by (simp add: step_logout_returns del: step.simps foldl.simps)
  have bad: "removeItem localStorage tokenKey = Some e \<and> \<not> failed (logoutEffect sys)
        \<and> wellFormed (theStore sys) \<longrightarrow>
        actionLog (step localStorage sys (Dispatch logout)) = actionLog sys @ [logout]
        \<and> sliceValue (state (theStore (step localStorage sys (Dispatch logout))))
            = (sliceValue (state (theStore sys)))\<lparr>loading := True\<rparr>
        \<and> failed (logoutEffect (step localStorage sys (Dispatch logout)))"
    by (simp add: step_logout_raises dispatch_sliceValue del: step.simps)
  show ?thesis
    using init ok bad by (simp add: logout_work_ok logout_work_error)
qed

lemma loggedIn_store:
  "theStore loggedIn =
     \<lparr>state = (3, \<lparr>user = (2, \<lparr>currentUser = Some alice, isAuthenticated = True,
        loading = False, error = None\<rparr>)\<rparr>), nextAddr = 4\<rparr>"
  by (simp add: loggedIn_def createStore_def dispatch_def rootReducer_def sameRef_def
      initialUserState_def numeral_eq_Suc)

theorem logout_attempt_witness:
  "removeItem deniedStorage tokenKey = Some (Error ''The operation is insecure.'')
   \<and> \<not> failed (logoutEffect loggedIn) \<and> wellFormed (theStore loggedIn)
   \<and> actionLog (step deniedStorage loggedIn (Dispatch logout)) = [loginSuccess alice, logout]
   \<and> isAuthenticated (sliceValue (state (theStore (step deniedStorage loggedIn (Dispatch logout)))))
   \<and> failed (logoutEffect (step deniedStorage loggedIn (Dispatch logout)))
   \<and> removeItem workingStorage tokenKey = None
   \<and> actionLog (step workingStorage loggedIn (Dispatch logout))
       = [loginSuccess alice, logout, logoutSuccess]
   \<and> sliceValue (state (theStore (step workingStorage loggedIn (Dispatch logout))))
       = initialUserState"
proof -
  have d: "removeItem deniedStorage tokenKey = Some (Error ''The operation is insecure.'')"
    by (simp add: deniedStorage_def)
  have w: "removeItem workingStorage tokenKey = None"
    by (simp add: workingStorage_def)
  have f: "\<not> failed (logoutEffect loggedIn)"
    by (simp add: loggedIn_def idle_def)
  have wf: "wellFormed (theStore loggedIn)"
    by (simp add: loggedIn_store wellFormed_def)
  have l: "actionLog loggedIn = [loginSuccess alice]"
    by (simp add: loggedIn_def)
  have a: "isAuthenticated (sliceValue (state (theStore loggedIn)))"
    by (simp add: loggedIn_store sliceValue_def)
  note bad = logout_attempt [where localStorage = deniedStorage and sys = loggedIn
      and e = "Error ''The operation is insecure.''", THEN conjunct2, THEN conjunct2,
      THEN conjunct2, THEN conjunct2, THEN conjunct2, THEN conjunct2]
  note ok = logout_attempt [where localStorage = workingStorage and sys = loggedIn,
      THEN conjunct2, THEN conjunct2, THEN conjunct2, THEN conjunct2, THEN conjunct2,
      THEN conjunct1]
  show ?thesis
    using d w f wf l a bad ok by (simp del: step.simps)
qed

section \<open>Overlapping login requests\<close>

lemma two_logins:
  "effect_run (login_effect (Inr pipeline)) idle
      [Dispatched (login u1 p1), Dispatched (login u2 p2), Settled (Suc 0) r2, Settled 0 r1] =
    (\<lparr>inFlight = [], started = 2, failed = False\<rparr>,
     emitted (login_work r2) @ emitted (login_work r1))"
  by (simp add: idle_def login_effect_returned login_effect_settled)

lemma two_logins_in_order:
  "effect_run (login_effect (Inr pipeline)) idle
      [Dispatched (login u1 p1), Dispatched (login u2 p2), Settled 0 r1, Settled (Suc 0) r2] =
    (\<lparr>inFlight = [], started = 2, failed = False\<rparr>,
     emitted (login_work r1) @ emitted (login_work r2))"
  by (simp add: idle_def login_effect_returned login_effect_settled)

text \<open>
  C6 fails as stated. Two login requests are dispatched and their calls return; the
  observable of the second call resolves first and the one of the first call after it:
  the completion of the first request is emitted as a follow-up action all the same.
\<close>

theorem login_overlap_counterexample:
  "snd (effect_run (login_effect (Inr ())) idle overlappingLogins) =
     [loginSuccess bob, loginSuccess alice]"
  unfolding overlappingLogins_def One_nat_def two_logins
  by (simp add: login_work_ok)

lemma login_effect_keeps_inFlight:
  "set (inFlight eff) \<subseteq> set (inFlight (fst (login_effect (Inr pipeline) eff (Dispatched a))))
   \<and> failed (fst (login_effect (Inr pipeline) eff (Dispatched a))) = failed eff"
  by (auto simp: login_effect_def)

text \<open>
  C6, amended. The login effect flattens with \<open>mergeMap\<close>: where the calls of the
  service return, a later trigger leaves every invocation in flight as it is, and each
  settlement of an invocation in flight gives its own follow-up action. With a second
  login request dispatched before the first one has settled, both completions are
  emitted, in the order in which the returned observables settle.
\<close>

theorem login_effect_concurrent:
  "set (inFlight eff) \<subseteq> set (inFlight (fst (login_effect (Inr pipeline) eff (Dispatched a))))
   \<and> failed (fst (login_effect (Inr pipeline) eff (Dispatched a))) = failed eff
   \<and> (\<not> failed eff \<and> i \<in> set (inFlight eff) \<longrightarrow>
        snd (login_effect call eff (Settled i returned)) = emitted (login_work returned))
   \<and> snd (effect_run (login_effect (Inr pipeline)) idle
        [Dispatched (login u1 p1), Dispatched (login u2 p2),
         Settled 1 (rx_of usr2), Settled 0 (rx_of usr1)]) =
      [loginSuccess usr2, loginSuccess usr1]
   \<and> snd (effect_run (login_effect (Inr pipeline)) idle
        [Dispatched (login u1 p1), Dispatched (login u2 p2),
         Settled 0 (rx_of usr1), Settled 1 (rx_of usr2)]) =
      [loginSuccess usr1, loginSuccess usr2]"
  using login_effect_keeps_inFlight [of eff pipeline a]
  unfolding One_nat_def two_logins two_logins_in_order
  by (simp add: login_effect_settled login_work_ok)

theorem login_effect_concurrent_witness:
  "\<not> failed \<lparr>inFlight = [0, 1], started = 2, failed = False\<rparr>
   \<and> 0 \<in> set (inFlight \<lparr>inFlight = [0, 1], started = 2, failed = False\<rparr>)
   \<and> snd (login_effect (Inr ()) \<lparr>inFlight = [0, 1], started = 2, failed = False\<rparr>
        (Settled 0 (rx_of alice))) = [loginSuccess alice]"
  using login_effect_concurrent [where eff = "\<lparr>inFlight = [0, 1], started = 2, failed = False\<rparr>"
      and i = 0 and returned = "rx_of alice" and call = "Inr ()",
      THEN conjunct2, THEN conjunct2, THEN conjunct1]
  by (simp add: login_work_ok)

section \<open>The login flow\<close>

lemma login_flow_emissions:
  "emissions (createStore a0) [login u p, loginSuccess usr] =
     [(a0 + 3, \<lparr>user = (a0 + 2, initialUserState\<lparr>loading := True\<rparr>)\<rparr>),
      (a0 + 5, \<lparr>user = (a0 + 4, \<lparr>currentUser = Some usr, isAuthenticated = True, loading = False,
          error = None\<rparr>)\<rparr>)]"
  by (simp add: createStore_def dispatch_def rootReducer_def sameRef_def initialUserState_def)

lemma login_flow_slice_notifications:
  "notifications (valueOf selectUserState) sameRef (createStore a0)
      [login u p, loginSuccess usr] =
     [(a0 + 2, initialUserState\<lparr>loading := True\<rparr>),
      (a0 + 4, \<lparr>currentUser = Some usr, isAuthenticated = True, loading = False,
          error = None\<rparr>)]"
  unfolding notifications_def login_flow_emissions
  by (simp add: valueOf_selectUserState state_createStore sameRef_def)

lemma login_flow_isAuthenticated_notifications:
  "notifications (valueOf selectIsAuthenticated) (=) (createStore a0)
      [login u p, loginSuccess usr] = [True]"
  unfolding notifications_def login_flow_emissions
  by (simp add: valueOf_selectIsAuthenticated state_createStore sliceValue_def
      initialUserState_def)

lemma login_flow_currentUser_notifications:
  "notifications (valueOf selectCurrentUser) sameRefOrNull (createStore a0)
      [login u p, loginSuccess usr] = [Some usr]"
  unfolding notifications_def login_flow_emissions
  by (simp add: valueOf_selectCurrentUser state_createStore sliceValue_def
      initialUserState_def)

text \<open>
  C4 fails as stated: over the login request and the success action that the effect
  makes of a returned observable resolving with the user, a subscriber of the user slice
  is notified twice, not once.
\<close>

theorem login_flow_counterexample:
  "emitted (login_work (rx_of alice)) = [loginSuccess alice]
   \<and> length (notifications (valueOf selectUserState) sameRef (createStore 0)
        (login ''a'' ''b'' # emitted (login_work (rx_of alice)))) = 2"
  by (simp add: login_work_ok login_flow_slice_notifications)

text \<open>
  C4, amended. When the observable that the login call returned resolves with a user,
  the effect's follow-up is the login success action with that user. From the initial
  state, the login request followed by it leaves a slice that holds that user, is
  authenticated, is not loading and has no error. A subscriber of the slice is notified
  twice over the flow (the request sets \<open>loading\<close>, the success stores the user); a
  subscriber of \<open>selectIsAuthenticated\<close> or of \<open>selectCurrentUser\<close> once.
\<close>

theorem login_flow:
  "emitted (login_work (rx_of usr)) = [loginSuccess usr]
   \<and> sliceValue (state (foldl dispatch (createStore a0)
        (login u p # emitted (login_work (rx_of usr))))) =
      \<lparr>currentUser = Some usr, isAuthenticated = True, loading = False, error = None\<rparr>
   \<and> length (notifications (valueOf selectUserState) sameRef (createStore a0)
        (login u p # emitted (login_work (rx_of usr)))) = 2
   \<and> notifications (valueOf selectIsAuthenticated) (=) (createStore a0)
        (login u p # emitted (login_work (rx_of usr))) = [True]
   \<and> notifications (valueOf selectCurrentUser) sameRefOrNull (createStore a0)
        (login u p # emitted (login_work (rx_of usr))) = [Some usr]"
proof -
  have v: "sliceValue (state (foldl dispatch (createStore a0) [login u p, loginSuccess usr])) =
      \<lparr>currentUser = Some usr, isAuthenticated = True, loading = False, error = None\<rparr>"
    by (simp only: foldl_dispatch_sliceValue wellFormed_createStore createStore_sliceValue)
       (simp add: initialUserState_def)
  have e: "emitted (login_work (rx_of usr)) = [loginSuccess usr]"
    by (simp add: login_work_ok)
  show ?thesis
    by (simp only: e v login_flow_slice_notifications
        login_flow_isAuthenticated_notifications login_flow_currentUser_notifications) simp
qed

section \<open>Selector memoization\<close>




lemma memo_first:
  "cached m = None \<Longrightarrow>
     defaultMemoize f same m arg =
       (f arg, \<lparr>cached = Some (arg, f arg), computations = Suc (computations m)\<rparr>)"
  by (simp add: defaultMemoize_def)












lemma valueOf_selectUserRole:
  "valueOf selectUserRole root = map_option (\<lambda>u. role (snd u)) (currentUser (sliceValue root))"
  by (simp add: valueOf_def selectUserRole_def selectCurrentUser_def selectUserState_def
      createSelector_def defaultMemoize_def newGraph_def newMemo_def sliceValue_def)
















end
